theory Spec2Isabelle
  imports Main
begin

section \<open>Python string primitives used by the script\<close>

text \<open>
  Strings are lists of 8-bit characters, a Python string in its UTF-8 encoding. Every
  character the script looks for (the reserved characters, the dot, the separators, the
  apostrophe) is ASCII, and an ASCII byte never occurs inside the encoding of another
  character, so replacing and splitting act on the bytes as they do on the code points.
\<close>

text \<open>
  Python's \<^verbatim>\<open>str.replace(old, new)\<close>: every non-overlapping occurrence of \<open>old\<close>,
  scanning left to right, is replaced by \<open>new\<close>. For the empty \<open>old\<close> Python puts
  \<open>new\<close> before every character and at the end.
\<close>

function str_replace :: "string \<Rightarrow> string \<Rightarrow> string \<Rightarrow> string" where
  "str_replace old new [] = (if old = [] then new else [])"
| "str_replace old new (c # cs) =
     (if old = [] then new @ c # str_replace old new cs
      else if take (length old) (c # cs) = old
        then new @ str_replace old new (drop (length old) (c # cs))
        else c # str_replace old new cs)"
  by pat_completeness auto
termination
  by (relation "measure (\<lambda>(old, new, s). length s)") auto

text \<open>
  Python's \<^verbatim>\<open>str.rfind(c)\<close> for a one-character needle: the highest index at which
  \<open>c\<close> occurs, or \<open>-1\<close>.
\<close>

fun rfind :: "string \<Rightarrow> char \<Rightarrow> int" where
  "rfind [] c = - 1"
| "rfind (x # xs) c =
     (let r = rfind xs c in if 0 \<le> r then r + 1 else if x = c then 0 else - 1)"

text \<open>Python's \<^verbatim>\<open>str(i)\<close> for an integer: decimal digits, with a sign when negative.\<close>

definition digit_char :: "nat \<Rightarrow> char" where
  "digit_char d = ''0123456789'' ! d"

fun str_nat :: "nat \<Rightarrow> string" where
  "str_nat n = (if n < 10 then [digit_char n] else str_nat (n div 10) @ [digit_char (n mod 10)])"

declare str_nat.simps [simp del]

definition str_int :: "int \<Rightarrow> string" where
  "str_int i = (if i < 0 then CHR ''-'' # str_nat (nat (- i)) else str_nat (nat i))"

section \<open>makePcFileName\<close>

text \<open>
  The characters the script replaces, in the order of its fifteen \<^verbatim>\<open>replace\<close>
  calls: \<^verbatim>\<open>~ # % & * { } / \ : < > ? | "\<close>.
\<close>

definition illegalChars :: "char list" where
  "illegalChars =
     [CHR ''~'', CHR ''#'', CHR ''%'', CHR ''&'', CHR ''*'', CHR ''{'', CHR ''}'', CHR ''/'',
      CHR 0x5C, CHR '':'', CHR ''<'', CHR ''>'', CHR ''?'', CHR ''|'', CHR 0x22]"

definition makePcFileName :: "string \<Rightarrow> bool \<Rightarrow> string" where
  "makePcFileName inFilename traceFlag =
     (let retval = str_replace ''~'' ''_'' inFilename;
          retval = str_replace ''#'' ''_'' retval;
          retval = str_replace ''%'' ''_'' retval;
          retval = str_replace ''&'' ''_'' retval;
          retval = str_replace ''*'' ''_'' retval;
          retval = str_replace ''{'' ''_'' retval;
          retval = str_replace ''}'' ''_'' retval;
          retval = str_replace ''/'' ''_'' retval;
          retval = str_replace [CHR 0x5C] ''_'' retval;
          retval = str_replace '':'' ''_'' retval;
          retval = str_replace ''<'' ''_'' retval;
          retval = str_replace ''>'' ''_'' retval;
          retval = str_replace ''?'' ''_'' retval;
          retval = str_replace ''|'' ''_'' retval;
          retval = str_replace [CHR 0x22] ''_'' retval
      in retval)"

section \<open>os.path.splitext\<close>

text \<open>
  \<^verbatim>\<open>splitext\<close> is imported from \<^verbatim>\<open>os.path\<close>, which is \<^verbatim>\<open>posixpath\<close> or
  \<^verbatim>\<open>ntpath\<close> depending on the host. Both call \<^verbatim>\<open>genericpath._splitext\<close>; they
  differ in the separators they pass: \<^verbatim>\<open>'/'\<close> and no alternative on POSIX,
  \<^verbatim>\<open>'\\'\<close> with the alternative \<^verbatim>\<open>'/'\<close> on Windows.
\<close>

datatype platform = Posix | Nt

fun sep :: "platform \<Rightarrow> char" where
  "sep Posix = CHR ''/''"
| "sep Nt = CHR 0x5C"

fun altsep :: "platform \<Rightarrow> char option" where
  "altsep Posix = None"
| "altsep Nt = Some CHR ''/''"

text \<open>
  The loop of \<^verbatim>\<open>_splitext\<close> that skips leading dots:
  \<^verbatim>\<open>
  while filenameIndex < dotIndex:
      if p[filenameIndex:filenameIndex+1] != extsep:
          return p[:dotIndex], p[dotIndex:]
      filenameIndex += 1
  return p, p[:0]
  \<close>
\<close>

function skip_leading_dots :: "string \<Rightarrow> char \<Rightarrow> int \<Rightarrow> int \<Rightarrow> string \<times> string" where
  "skip_leading_dots p extsep dotIndex filenameIndex =
     (if filenameIndex < dotIndex then
        (if take 1 (drop (nat filenameIndex) p) \<noteq> [extsep]
         then (take (nat dotIndex) p, drop (nat dotIndex) p)
         else skip_leading_dots p extsep dotIndex (filenameIndex + 1))
      else (p, []))"
  by pat_completeness auto
termination
  by (relation "measure (\<lambda>(p, extsep, dotIndex, filenameIndex). nat (dotIndex - filenameIndex))") auto

declare skip_leading_dots.simps [simp del]

definition splitext_generic :: "string \<Rightarrow> char \<Rightarrow> char option \<Rightarrow> char \<Rightarrow> string \<times> string" where
  "splitext_generic p sp alt extsep =
     (let sepIndex = rfind p sp;
          sepIndex = (case alt of None \<Rightarrow> sepIndex | Some a \<Rightarrow> max sepIndex (rfind p a));
          dotIndex = rfind p extsep
      in if dotIndex > sepIndex then skip_leading_dots p extsep dotIndex (sepIndex + 1)
         else (p, []))"

definition splitext :: "platform \<Rightarrow> string \<Rightarrow> string \<times> string" where
  "splitext pf p = splitext_generic p (sep pf) (altsep pf) CHR ''.''"

section \<open>Drive files and getMimeTypeAndSuffix\<close>

text \<open>
  A Drive file object as the script reads it: \<^verbatim>\<open>driveFile['title']\<close>,
  \<^verbatim>\<open>driveFile['id']\<close>, and in its metadata the key \<^verbatim>\<open>'mimeType'\<close> and the
  optional key \<^verbatim>\<open>'exportLinks'\<close>, itself a dictionary from MIME types to links.
\<close>

record driveFile =
  title :: string
  ident :: string
  mimeType :: string
  exportLinks :: "(string \<rightharpoonup> string) option"

text \<open>The dictionary \<^verbatim>\<open>retval\<close> that \<^verbatim>\<open>getMimeTypeAndSuffix\<close> returns.\<close>

record mtas =
  mtas_mimeType :: string
  mtas_suffix :: string

definition getMimeTypeAndSuffix :: "driveFile \<Rightarrow> bool \<Rightarrow> mtas" where
  "getMimeTypeAndSuffix driveFile traceFlag =
     (let retval = \<lparr>mtas_mimeType = [], mtas_suffix = []\<rparr> in
      case exportLinks driveFile of
        None \<Rightarrow> retval\<lparr>mtas_mimeType := mimeType driveFile\<rparr>
      | Some links \<Rightarrow>
          if ''application/vnd.openxmlformats-officedocument.wordprocessingml.document'' \<in> dom links then
            retval\<lparr>mtas_mimeType := ''application/vnd.openxmlformats-officedocument.wordprocessingml.document'',
                   mtas_suffix := ''.docx''\<rparr>
          else if ''application/vnd.oasis.opendocument.text'' \<in> dom links then
            retval\<lparr>mtas_mimeType := ''application/vnd.oasis.opendocument.text'', mtas_suffix := ''.odt''\<rparr>
          else if ''application/rtf'' \<in> dom links then
            retval\<lparr>mtas_mimeType := ''application/rtf'', mtas_suffix := ''.rtf''\<rparr>
          else if ''application/vnd.openxmlformats-officedocument.spreadsheetml.sheet'' \<in> dom links then
            retval\<lparr>mtas_mimeType := ''application/vnd.openxmlformats-officedocument.spreadsheetml.sheet'',
                   mtas_suffix := ''.xlsx''\<rparr>
          else if ''application/x-vnd.oasis.opendocument.spreadsheet'' \<in> dom links then
            retval\<lparr>mtas_mimeType := ''application/x-vnd.oasis.opendocument.spreadsheet'',
                   mtas_suffix := ''.ods''\<rparr>
          else if ''text/csv'' \<in> dom links then
            retval\<lparr>mtas_mimeType := ''text/csv'', mtas_suffix := ''.csv''\<rparr>
          else if ''text/tsv'' \<in> dom links then
            retval\<lparr>mtas_mimeType := ''text/tsv'', mtas_suffix := ''.tsv''\<rparr>
          else if ''application/vnd.openxmlformats-officedocument.presentationml.presentation'' \<in> dom links then
            retval\<lparr>mtas_mimeType := ''application/vnd.openxmlformats-officedocument.presentationml.presentation'',
                   mtas_suffix := ''.pptx''\<rparr>
          else if ''application/vnd.oasis.opendocument.presentation'' \<in> dom links then
            retval\<lparr>mtas_mimeType := ''application/vnd.oasis.opendocument.presentation'',
                   mtas_suffix := ''.odp''\<rparr>
          else if ''image/jpeg'' \<in> dom links then
            retval\<lparr>mtas_mimeType := ''image/jpeg'', mtas_suffix := ''.jpg''\<rparr>
          else if ''image/png'' \<in> dom links then
            retval\<lparr>mtas_mimeType := ''image/png'', mtas_suffix := ''.png''\<rparr>
          else if ''image/svg'' \<in> dom links then
            retval\<lparr>mtas_mimeType := ''image/svg'', mtas_suffix := ''.svg''\<rparr>
          else
            retval\<lparr>mtas_mimeType := ''application/pdf'', mtas_suffix := ''.pdf''\<rparr>)"

text \<open>
  The priority order as the specification lists it, for comparison with the chain of
  tests above: each exportable MIME type with the suffix it implies, and the fallback.
\<close>

definition exportPriority :: "(string \<times> string) list" where
  "exportPriority =
     [(''application/vnd.openxmlformats-officedocument.wordprocessingml.document'', ''.docx''),
      (''application/vnd.oasis.opendocument.text'', ''.odt''),
      (''application/rtf'', ''.rtf''),
      (''application/vnd.openxmlformats-officedocument.spreadsheetml.sheet'', ''.xlsx''),
      (''application/x-vnd.oasis.opendocument.spreadsheet'', ''.ods''),
      (''text/csv'', ''.csv''),
      (''text/tsv'', ''.tsv''),
      (''application/vnd.openxmlformats-officedocument.presentationml.presentation'', ''.pptx''),
      (''application/vnd.oasis.opendocument.presentation'', ''.odp''),
      (''image/jpeg'', ''.jpg''),
      (''image/png'', ''.png''),
      (''image/svg'', ''.svg'')]"

fun firstMatch :: "(string \<times> string) list \<Rightarrow> string set \<Rightarrow> mtas" where
  "firstMatch [] keys = \<lparr>mtas_mimeType = ''application/pdf'', mtas_suffix = ''.pdf''\<rparr>"
| "firstMatch ((k, sfx) # rest) keys =
     (if k \<in> keys then \<lparr>mtas_mimeType = k, mtas_suffix = sfx\<rparr> else firstMatch rest keys)"

section \<open>getDownloadFileName\<close>

definition getDownloadFileName ::
    "platform \<Rightarrow> string \<Rightarrow> string \<Rightarrow> string \<Rightarrow> int \<Rightarrow> bool \<Rightarrow> string" where
  "getDownloadFileName pf hostRootDir driveName suffix i traceFlag =
     (let (fileName, extension) = splitext pf driveName;
          extension = (if extension = [] then suffix else extension);
          retval = hostRootDir @ ''/'' @ makePcFileName fileName traceFlag;
          retval = (if i > 0 then retval @ ''_'' @ str_int i else retval);
          retval = retval @ extension
      in retval)"

text \<open>
  The path builder as the specification words it, for comparison with
  \<open>getDownloadFileName\<close>: the title is split at its last dot, a title without a dot
  has no extension, the title's own extension wins over the suffix, the base name is
  sanitized, and a positive index goes between base name and extension.
\<close>

definition splitAtLastDot :: "string \<Rightarrow> string \<times> string" where
  "splitAtLastDot t =
     (let d = rfind t CHR ''.'' in if d < 0 then (t, []) else (take (nat d) t, drop (nat d) t))"

definition indexPart :: "int \<Rightarrow> string" where
  "indexPart i = (if i > 0 then ''_'' @ str_int i else [])"

definition buildPath_spec :: "string \<Rightarrow> string \<Rightarrow> string \<Rightarrow> int \<Rightarrow> string" where
  "buildPath_spec rootDir remoteTitle suffix i =
     (let (base, ext) = splitAtLastDot remoteTitle
      in rootDir @ ''/'' @ makePcFileName base False @ indexPart i
           @ (if ext = [] then suffix else ext))"

text \<open>
  When \<^verbatim>\<open>splitext\<close> finds an extension: the last dot comes after the last separator,
  and between that separator (or the start) and the dot some character is not a dot.
\<close>

definition lastSepIndex :: "platform \<Rightarrow> string \<Rightarrow> int" where
  "lastSepIndex pf p =
     (case altsep pf of None \<Rightarrow> rfind p (sep pf) | Some a \<Rightarrow> max (rfind p (sep pf)) (rfind p a))"

definition hasOwnExtension :: "platform \<Rightarrow> string \<Rightarrow> bool" where
  "hasOwnExtension pf p \<longleftrightarrow>
     (let s = lastSepIndex pf p; d = rfind p CHR ''.''
      in s < d \<and> (\<exists>k \<in> set [nat (s + 1) ..< nat d]. p ! k \<noteq> CHR ''.''))"

section \<open>downloadAllFilesInFolder\<close>

text \<open>
  What the walker does to its surroundings, in the order it does it: a line printed, a
  directory created by \<^verbatim>\<open>os.makedirs\<close>, and a call of
  \<^verbatim>\<open>driveFile.GetContentFile(downloadFileName, mimeType)\<close> recorded with the
  file's id, the two arguments and whether the call returned normally.
\<close>

datatype event =
  Print string
| MakeDirs string
| GetContentFile string string string bool

text \<open>
  The host side: the root directory the walk started in followed by the directories the
  walker has created, and the events so far, oldest first.
\<close>

record host =
  dirs :: "string list"
  events :: "event list"

text \<open>
  What lies outside the script and answers its calls: the authenticated Drive handle and
  the host's \<^verbatim>\<open>os.makedirs\<close>. None of it is in the source, so the walker takes every
  answer as given. \<open>ListFile q\<close> is the result of \<^verbatim>\<open>drive.ListFile({'q': q}).GetList()\<close>
  when that call returns, and \<open>ListFile_raises evs q\<close> tells whether it raises instead,
  after the events \<open>evs\<close>. \<open>raises evs f name mt\<close> tells whether
  \<^verbatim>\<open>f.GetContentFile(name, mt)\<close> raises, and \<open>makedirs_raises evs name\<close> whether
  \<^verbatim>\<open>os.makedirs(name)\<close> does.
\<close>

record session =
  ListFile :: "string \<Rightarrow> driveFile list"
  raises :: "event list \<Rightarrow> driveFile \<Rightarrow> string \<Rightarrow> string \<Rightarrow> bool"
  ListFile_raises :: "event list \<Rightarrow> string \<Rightarrow> bool"
  makedirs_raises :: "event list \<Rightarrow> string \<Rightarrow> bool"

text \<open>
  The exceptions that leave the walker, none of which it catches: the one of
  \<^verbatim>\<open>os.makedirs\<close> (with the path), the one of a listing (with the query), and the
  bound on the depth of the recursion (the fuel of the model).
\<close>

datatype error = OSError string | ApiRequestError string | RecursionError

definition print :: "string \<Rightarrow> host \<Rightarrow> host" where
  "print outStr h = h\<lparr>events := events h @ [Print outStr]\<rparr>"

definition makedirs :: "session \<Rightarrow> string \<Rightarrow> host \<Rightarrow> error + host" where
  "makedirs drive name h =
     (if makedirs_raises drive (events h) name then Inl (OSError name)
      else Inr (h\<lparr>dirs := dirs h @ [name], events := events h @ [MakeDirs name]\<rparr>))"

text \<open>The two query strings the walker builds.\<close>

definition queryStr1 :: "string \<Rightarrow> string" where
  "queryStr1 driveRootDir = [CHR 0x27] @ driveRootDir @ [CHR 0x27] @ '' in parents and trashed=false''"

definition queryStr2 :: "string \<Rightarrow> string" where
  "queryStr2 driveName =
     (let driveNameForQuery = str_replace [CHR 0x27] [CHR 0x5C, CHR 0x27] driveName
      in ''title='' @ [CHR 0x27] @ driveNameForQuery @ [CHR 0x27])"

text \<open>
  The body of the inner loop, for one \<open>driveFile\<close> of the title group with counter \<open>i\<close>.
  \<open>recurse\<close> stands for the recursive call of \<open>downloadAllFilesInFolder\<close>.
\<close>

definition processDriveFile ::
    "(string \<Rightarrow> string \<Rightarrow> host \<Rightarrow> error + host) \<Rightarrow> platform \<Rightarrow> session \<Rightarrow> bool \<Rightarrow>
     string \<Rightarrow> string \<Rightarrow> driveFile \<Rightarrow> int \<Rightarrow> host \<Rightarrow> error + host" where
  "processDriveFile recurse pf drive traceFlag hostRootDir driveName driveFile i h =
     (if mimeType driveFile = ''application/vnd.google-apps.folder'' then
        (let pcFolderName = makePcFileName (title driveFile) traceFlag;
             newFolderName = hostRootDir @ ''/'' @ pcFolderName
         in case makedirs drive newFolderName h of
              Inl e \<Rightarrow> Inl e
            | Inr h1 \<Rightarrow>
                (let h2 = (if traceFlag
                           then print (CHR 0x09 # ''Drive id = '' @ ident driveFile)
                                  (print (''Recursive call to download files to '' @ newFolderName) h1)
                           else h1)
                 in recurse newFolderName (ident driveFile) h2))
      else if mimeType driveFile = ''application/vnd.google-apps.form'' then
        Inr (print (CHR 0x09 # ''Drive id = '' @ ident driveFile)
               (print (''*** Google Drive does not support export/download of Google Forms: ''
                        @ title driveFile) h))
      else
        (let mtas = getMimeTypeAndSuffix driveFile traceFlag;
             mimeType = mtas_mimeType mtas;
             suffix = mtas_suffix mtas;
             downloadFileName = getDownloadFileName pf hostRootDir driveName suffix i traceFlag
         in if raises drive (events h) driveFile downloadFileName mimeType then
              Inr (print (CHR 0x09 # ''Drive id = '' @ ident driveFile)
                     (print (''*** FAILED to download '' @ title driveFile @ '' to '' @ downloadFileName)
                        (h\<lparr>events := events h @
                             [GetContentFile (ident driveFile) downloadFileName mimeType False]\<rparr>)))
            else
              (let h1 = h\<lparr>events := events h @
                             [GetContentFile (ident driveFile) downloadFileName mimeType True]\<rparr>
               in Inr (if traceFlag
                       then print (CHR 0x09 # ''Drive id = '' @ ident driveFile)
                              (print (''Downloaded '' @ title driveFile @ '' to '' @ downloadFileName) h1)
                       else h1))))"

text \<open>The inner loop \<^verbatim>\<open>for driveFile in driveFiles\<close>, with its counter \<open>i\<close>.\<close>

fun driveFilesLoop ::
    "(string \<Rightarrow> string \<Rightarrow> host \<Rightarrow> error + host) \<Rightarrow> platform \<Rightarrow> session \<Rightarrow> bool \<Rightarrow>
     string \<Rightarrow> string \<Rightarrow> int \<Rightarrow> driveFile list \<Rightarrow> host \<Rightarrow> error + host" where
  "driveFilesLoop recurse pf drive traceFlag hostRootDir driveName i [] h = Inr h"
| "driveFilesLoop recurse pf drive traceFlag hostRootDir driveName i (driveFile # driveFiles) h =
     (case processDriveFile recurse pf drive traceFlag hostRootDir driveName driveFile i h of
        Inl e \<Rightarrow> Inl e
      | Inr h' \<Rightarrow>
          driveFilesLoop recurse pf drive traceFlag hostRootDir driveName (i + 1) driveFiles h')"

text \<open>The outer loop \<^verbatim>\<open>for f in file_list\<close>.\<close>

fun fileListLoop ::
    "(string \<Rightarrow> string \<Rightarrow> host \<Rightarrow> error + host) \<Rightarrow> platform \<Rightarrow> session \<Rightarrow> bool \<Rightarrow>
     string \<Rightarrow> driveFile list \<Rightarrow> host \<Rightarrow> error + host" where
  "fileListLoop recurse pf drive traceFlag hostRootDir [] h = Inr h"
| "fileListLoop recurse pf drive traceFlag hostRootDir (f # file_list) h =
     (let h1 = (if traceFlag
                then print (CHR 0x09 # ''Drive id = '' @ ident f) (print (''Processing '' @ title f) h)
                else h);
          driveName = title f
      in if ListFile_raises drive (events h1) (queryStr2 driveName)
         then Inl (ApiRequestError (queryStr2 driveName))
         else
           (let driveFiles = ListFile drive (queryStr2 driveName)
            in case driveFilesLoop recurse pf drive traceFlag hostRootDir driveName 0 driveFiles h1 of
                 Inl e \<Rightarrow> Inl e
               | Inr h2 \<Rightarrow> fileListLoop recurse pf drive traceFlag hostRootDir file_list h2))"

text \<open>
  The walker. Its first argument bounds the depth of the recursion: nothing in the script
  ends a descent through folders that contain one another, so the model counts the depth
  down and reports \<open>RecursionError\<close> when it is used up.
\<close>

primrec downloadAllFilesInFolder ::
    "nat \<Rightarrow> platform \<Rightarrow> session \<Rightarrow> bool \<Rightarrow> string \<Rightarrow> string \<Rightarrow> host \<Rightarrow> error + host" where
  "downloadAllFilesInFolder 0 pf drive traceFlag hostRootDir driveRootDir h = Inl RecursionError"
| "downloadAllFilesInFolder (Suc depth) pf drive traceFlag hostRootDir driveRootDir h =
     (if ListFile_raises drive (events h) (queryStr1 driveRootDir)
      then Inl (ApiRequestError (queryStr1 driveRootDir))
      else fileListLoop (downloadAllFilesInFolder depth pf drive traceFlag) pf drive traceFlag
             hostRootDir (ListFile drive (queryStr1 driveRootDir)) h)"

text \<open>The calls of \<^verbatim>\<open>GetContentFile\<close> among the events, as (id, local file name).\<close>

fun downloads :: "event list \<Rightarrow> (string \<times> string) list" where
  "downloads [] = []"
| "downloads (GetContentFile fid name mt ok # evs) = (fid, name) # downloads evs"
| "downloads (ev # evs) = downloads evs"

section \<open>An example environment\<close>

text \<open>
  For runs on concrete inputs: a remote store that reads the query text as the Drive
  service documents it, and a host directory that was empty when the walk began.

  A query is a string literal between apostrophes with a fixed text around it. Inside the
  literal a backslash announces an escaped character, which the documentation gives as an
  apostrophe or a backslash; the first apostrophe that is not escaped ends the literal.
  \<open>readLiteral\<close> reads from just after the opening apostrophe and yields the characters
  the literal denotes and the text after its closing apostrophe, or nothing when the
  literal does not end or holds another escape.
\<close>

fun dropPrefix :: "string \<Rightarrow> string \<Rightarrow> string option" where
  "dropPrefix [] s = Some s"
| "dropPrefix (p # ps) [] = None"
| "dropPrefix (p # ps) (c # cs) = (if p = c then dropPrefix ps cs else None)"

fun readLiteral :: "string \<Rightarrow> (string \<times> string) option" where
  "readLiteral [] = None"
| "readLiteral (c # cs) =
     (if c = CHR 0x27 then Some ([], cs)
      else if c = CHR 0x5C then
        (case cs of
           [] \<Rightarrow> None
         | d # ds \<Rightarrow>
             if d = CHR 0x27 \<or> d = CHR 0x5C
             then (case readLiteral ds of None \<Rightarrow> None | Some (s, r) \<Rightarrow> Some (d # s, r))
             else None)
      else (case readLiteral cs of None \<Rightarrow> None | Some (s, r) \<Rightarrow> Some (c # s, r)))"

text \<open>
  The two forms of query the store answers: the children of a folder that are not
  trashed, and the entries of a title. Any other text is a query the service refuses.
\<close>

datatype query = InParents string | TitleIs string

definition parseQuery :: "string \<Rightarrow> query option" where
  "parseQuery q =
     (case dropPrefix (''title='' @ [CHR 0x27]) q of
        Some body \<Rightarrow>
          (case readLiteral body of
             None \<Rightarrow> None
           | Some (t, rest) \<Rightarrow> if rest = [] then Some (TitleIs t) else None)
      | None \<Rightarrow>
          (case dropPrefix [CHR 0x27] q of
             None \<Rightarrow> None
           | Some body \<Rightarrow>
               (case readLiteral body of
                  None \<Rightarrow> None
                | Some (p, rest) \<Rightarrow>
                    if rest = '' in parents and trashed=false'' then Some (InParents p) else None)))"

text \<open>
  Every entry of the store has the ids of its parent folders and a trashed mark. Entries
  come back in the order of the store.
\<close>

record remoteEntry =
  entry :: driveFile
  parents :: "string list"
  trashed :: bool

fun answers :: "query \<Rightarrow> remoteEntry \<Rightarrow> bool" where
  "answers (InParents p) e \<longleftrightarrow> p \<in> set (parents e) \<and> \<not> trashed e"
| "answers (TitleIs t) e \<longleftrightarrow> title (entry e) = t"

definition storeListFile :: "remoteEntry list \<Rightarrow> string \<Rightarrow> driveFile list" where
  "storeListFile store q =
     (case parseQuery q of None \<Rightarrow> [] | Some qu \<Rightarrow> map entry (filter (answers qu) store))"

text \<open>
  The host directory of the examples compares names exactly and was empty at the start, so
  a path is taken when the walk has created a directory of that name or written a file of
  that name, and a path that ends in an empty, \<^verbatim>\<open>.\<close> or \<^verbatim>\<open>..\<close> component names a
  directory that is there already. A download that raised is taken to have left no file.
\<close>

definition baseName :: "string \<Rightarrow> string" where
  "baseName p = drop (nat (rfind p CHR ''/'' + 1)) p"

fun written :: "event list \<Rightarrow> string list" where
  "written [] = []"
| "written (GetContentFile fid name mt ok # evs) = (if ok then name # written evs else written evs)"
| "written (ev # evs) = written evs"

definition pathTaken :: "event list \<Rightarrow> string \<Rightarrow> bool" where
  "pathTaken evs name \<longleftrightarrow>
     baseName name \<in> set [[], ''.'', ''..''] \<or> MakeDirs name \<in> set evs \<or> name \<in> set (written evs)"

text \<open>
  The environment of the examples: listings are answered by the store and raise on a
  query it refuses, downloads raise as \<open>fails\<close> says, and \<^verbatim>\<open>os.makedirs\<close> raises on a
  path that is taken.
\<close>

definition storeSession ::
    "remoteEntry list \<Rightarrow> (event list \<Rightarrow> driveFile \<Rightarrow> string \<Rightarrow> string \<Rightarrow> bool) \<Rightarrow> session" where
  "storeSession store fails =
     \<lparr>ListFile = storeListFile store, raises = fails,
      ListFile_raises = (\<lambda>evs q. parseQuery q = None), makedirs_raises = pathTaken\<rparr>"

section \<open>Example stores\<close>

definition plainFile :: "string \<Rightarrow> string \<Rightarrow> driveFile" where
  "plainFile t fid = \<lparr>title = t, ident = fid, mimeType = ''text/plain'', exportLinks = None\<rparr>"

definition folderFile :: "string \<Rightarrow> string \<Rightarrow> driveFile" where
  "folderFile t fid =
     \<lparr>title = t, ident = fid, mimeType = ''application/vnd.google-apps.folder'', exportLinks = None\<rparr>"

text \<open>Two regular files titled Report, both directly in the root folder.\<close>

definition twoReports :: "remoteEntry list" where
  "twoReports =
     [\<lparr>entry = plainFile ''Report'' ''a'', parents = [''root''], trashed = False\<rparr>,
      \<lparr>entry = plainFile ''Report'' ''b'', parents = [''root''], trashed = False\<rparr>]"

text \<open>Two regular files with different titles in the root folder.\<close>

definition twoFiles :: "remoteEntry list" where
  "twoFiles =
     [\<lparr>entry = plainFile ''first'' ''a'', parents = [''root''], trashed = False\<rparr>,
      \<lparr>entry = plainFile ''second'' ''b'', parents = [''root''], trashed = False\<rparr>]"

text \<open>
  One file titled Notes in the root folder, a second one in a folder \<^verbatim>\<open>x\<close> that is not
  part of the store's listing of the root, and a third one in the root folder but trashed.
\<close>

definition scatteredNotes :: "remoteEntry list" where
  "scatteredNotes =
     [\<lparr>entry = plainFile ''Notes'' ''a'', parents = [''root''], trashed = False\<rparr>,
      \<lparr>entry = plainFile ''Notes'' ''b'', parents = [''x''], trashed = False\<rparr>,
      \<lparr>entry = plainFile ''Notes'' ''c'', parents = [''root''], trashed = True\<rparr>]"

text \<open>
  A trashed, empty folder titled Notes, and after it in the store a regular file of the
  same title in the root folder.
\<close>

definition folderThenFile :: "remoteEntry list" where
  "folderThenFile =
     [\<lparr>entry = folderFile ''Notes'' ''n'', parents = [''root''], trashed = True\<rparr>,
      \<lparr>entry = plainFile ''Notes'' ''a'', parents = [''root''], trashed = False\<rparr>]"

text \<open>One regular file in the root folder whose title is the letter a and a backslash.\<close>

definition backslashTitle :: "remoteEntry list" where
  "backslashTitle =
     [\<lparr>entry = plainFile [CHR ''a'', CHR 0x5C] ''a'', parents = [''root''], trashed = False\<rparr>]"

definition neverFails :: "event list \<Rightarrow> driveFile \<Rightarrow> string \<Rightarrow> string \<Rightarrow> bool" where
  "neverFails evs f name mt = False"

definition failsFor :: "string \<Rightarrow> event list \<Rightarrow> driveFile \<Rightarrow> string \<Rightarrow> string \<Rightarrow> bool" where
  "failsFor fid evs f name mt \<longleftrightarrow> ident f = fid"

definition freshHost :: "string \<Rightarrow> host" where
  "freshHost hostRootDir = \<lparr>dirs = [hostRootDir], events = []\<rparr>"

section \<open>Helper lemmas\<close>

lemma str_replace_char:
  "str_replace [a] [b] s = map (\<lambda>x. if x = a then b else x) s"
  by (induction s) auto

lemma replace_fold:
  "foldl (\<lambda>r c. str_replace [c] ''_'' r) s cs =
     map (\<lambda>x. if x \<in> set cs then CHR ''_'' else x) s"
  by (induction cs arbitrary: s) (auto simp: str_replace_char)

lemma makePcFileName_fold:
  "makePcFileName s tf = foldl (\<lambda>r c. str_replace [c] ''_'' r) s illegalChars"
  by (simp add: makePcFileName_def illegalChars_def Let_def)

lemma makePcFileName_map:
  "makePcFileName s tf = map (\<lambda>c. if c \<in> set illegalChars then CHR ''_'' else c) s"
  by (simp only: makePcFileName_fold replace_fold)

lemma underscore_legal: "CHR ''_'' \<notin> set illegalChars"
  by (simp add: illegalChars_def)

lemma makePcFileName_legal: "set (makePcFileName s tf) \<inter> set illegalChars = {}"
  using underscore_legal by (auto simp: makePcFileName_map)

lemma makePcFileName_fixed:
  "set s \<inter> set illegalChars = {} \<Longrightarrow> makePcFileName s tf = s"
  unfolding makePcFileName_map by (induction s) auto

lemma rfind_bounds: "- 1 \<le> rfind p c \<and> rfind p c < int (length p)"
  by (induction p) (auto simp: Let_def)

lemma rfind_nth: "0 \<le> rfind p c \<Longrightarrow> p ! nat (rfind p c) = c"
  by (induction p) (auto simp: Let_def nat_add_distrib split: if_splits)

lemma skip_leading_dots_char:
  "0 \<le> k \<Longrightarrow> d \<le> int (length p) \<Longrightarrow>
   skip_leading_dots p c d k =
     (if \<exists>j \<in> set [nat k ..< nat d]. p ! j \<noteq> c then (take (nat d) p, drop (nat d) p) else (p, []))"
proof (induction p c d k rule: skip_leading_dots.induct)
  case (1 p extsep dotIndex filenameIndex)
  show ?case
  proof (cases "filenameIndex < dotIndex")
    case False
    then show ?thesis by (subst skip_leading_dots.simps) simp
  next
    case True
    then have lt: "nat filenameIndex < length p" using 1(2,3) by linarith
    then have here: "take 1 (drop (nat filenameIndex) p) = [p ! nat filenameIndex]"
      by (simp add: take_Suc_conv_app_nth)
    have range: "[nat filenameIndex ..< nat dotIndex] =
        nat filenameIndex # [nat (filenameIndex + 1) ..< nat dotIndex]"
      using True 1(2) by (simp add: upt_conv_Cons nat_add_distrib)
    show ?thesis
    proof (cases "p ! nat filenameIndex = extsep")
      case same: True
      have "skip_leading_dots p extsep dotIndex filenameIndex =
            skip_leading_dots p extsep dotIndex (filenameIndex + 1)"
        using True same here by (subst skip_leading_dots.simps) simp
      also have "\<dots> = (if \<exists>j \<in> set [nat (filenameIndex + 1) ..< nat dotIndex]. p ! j \<noteq> extsep
                        then (take (nat dotIndex) p, drop (nat dotIndex) p) else (p, []))"
        using 1(1) [OF True] same here 1(2,3) by simp
      finally show ?thesis using same by (simp only: range) simp
    next
      case diff: False
      have "skip_leading_dots p extsep dotIndex filenameIndex =
            (take (nat dotIndex) p, drop (nat dotIndex) p)"
        using True diff here by (subst skip_leading_dots.simps) simp
      then show ?thesis using diff by (simp only: range) simp
    qed
  qed
qed

lemma lastSepIndex_ge: "- 1 \<le> lastSepIndex pf p"
  using rfind_bounds [of p "sep pf"] by (cases pf) (auto simp: lastSepIndex_def)

lemma splitext_char:
  "splitext pf p =
     (if hasOwnExtension pf p
      then (take (nat (rfind p CHR ''.'')) p, drop (nat (rfind p CHR ''.'')) p)
      else (p, []))"
proof -
  have gen: "splitext pf p =
      (if rfind p CHR ''.'' > lastSepIndex pf p
       then skip_leading_dots p CHR ''.'' (rfind p CHR ''.'') (lastSepIndex pf p + 1)
       else (p, []))"
    by (cases pf) (simp_all add: splitext_def splitext_generic_def lastSepIndex_def Let_def)
  show ?thesis
    using lastSepIndex_ge [of pf p] rfind_bounds [of p "CHR ''.''"]
    by (simp add: gen hasOwnExtension_def Let_def skip_leading_dots_char)
qed

lemma own_extension_nonempty:
  "hasOwnExtension pf p \<Longrightarrow> drop (nat (rfind p CHR ''.'')) p \<noteq> []"
  using rfind_bounds [of p "CHR ''.''"] lastSepIndex_ge [of pf p]
  by (auto simp: hasOwnExtension_def Let_def)

lemma firstMatch_chain:
  "exportLinks f = Some links \<Longrightarrow>
     getMimeTypeAndSuffix f tf = firstMatch exportPriority (dom links)"
  by (simp add: getMimeTypeAndSuffix_def exportPriority_def)

lemma firstMatch_none:
  "keys \<inter> fst ` set ps = {} \<Longrightarrow>
     firstMatch ps keys = \<lparr>mtas_mimeType = ''application/pdf'', mtas_suffix = ''.pdf''\<rparr>"
  by (induction ps keys rule: firstMatch.induct) auto

lemma firstMatch_split:
  "k \<in> keys \<Longrightarrow> keys \<inter> fst ` set pre = {} \<Longrightarrow>
     firstMatch (pre @ (k, sfx) # post) keys = \<lparr>mtas_mimeType = k, mtas_suffix = sfx\<rparr>"
  by (induction pre keys rule: firstMatch.induct) auto

lemma exportPriority_suffixes:
  "map snd exportPriority =
     [''.docx'', ''.odt'', ''.rtf'', ''.xlsx'', ''.ods'', ''.csv'', ''.tsv'', ''.pptx'', ''.odp'',
      ''.jpg'', ''.png'', ''.svg'']"
  by (simp add: exportPriority_def)

lemma word_processor_first:
  "exportLinks f = Some links \<Longrightarrow>
   ''application/vnd.openxmlformats-officedocument.wordprocessingml.document'' \<in> dom links \<Longrightarrow>
   mtas_suffix (getMimeTypeAndSuffix f tf) = ''.docx''"
  by (simp add: getMimeTypeAndSuffix_def)

lemma getDownloadFileName_parts:
  "getDownloadFileName pf root t sfx i tf =
     root @ ''/'' @ makePcFileName (fst (splitext pf t)) tf @ indexPart i
       @ (if snd (splitext pf t) = [] then sfx else snd (splitext pf t))"
  by (simp add: getDownloadFileName_def indexPart_def Let_def split: prod.splits)

lemma getDownloadFileName_cases:
  "getDownloadFileName pf root t sfx i tf =
     (if hasOwnExtension pf t then buildPath_spec root t sfx i
      else root @ ''/'' @ makePcFileName t tf @ indexPart i @ sfx)"
proof (cases "hasOwnExtension pf t")
  case True
  then have d: "\<not> rfind t CHR ''.'' < 0"
    using lastSepIndex_ge [of pf t] by (auto simp: hasOwnExtension_def Let_def)
  have "makePcFileName (take (nat (rfind t CHR ''.'')) t) tf
      = makePcFileName (take (nat (rfind t CHR ''.'')) t) False"
    by (simp only: makePcFileName_map)
  then show ?thesis
    using True d own_extension_nonempty [OF True]
    by (simp add: getDownloadFileName_parts splitext_char buildPath_spec_def splitAtLastDot_def Let_def)
next
  case False
  then show ?thesis by (simp add: getDownloadFileName_parts splitext_char)
qed

lemma report_paths:
  "getDownloadFileName pf root ''Report'' ''.pdf'' 0 tf = root @ ''/Report.pdf''"
  "getDownloadFileName pf root ''Report'' ''.pdf'' 1 tf = root @ ''/Report_1.pdf''"
proof -
  have no: "\<not> hasOwnExtension pf ''Report''"
    by (cases pf) (simp_all add: hasOwnExtension_def lastSepIndex_def Let_def)
  have san: "makePcFileName ''Report'' tf = ''Report''"
    by (rule makePcFileName_fixed) (simp add: illegalChars_def)
  have one: "str_nat (Suc 0) = ''1''"
    by (subst str_nat.simps) (simp add: digit_char_def)
  show "getDownloadFileName pf root ''Report'' ''.pdf'' 0 tf = root @ ''/Report.pdf''"
    using no san by (simp add: getDownloadFileName_cases indexPart_def)
  show "getDownloadFileName pf root ''Report'' ''.pdf'' 1 tf = root @ ''/Report_1.pdf''"
    using no san one by (simp add: getDownloadFileName_cases indexPart_def str_int_def)
qed

lemma spec_agrees:
  "hasOwnExtension pf t \<or> rfind t CHR ''.'' < 0 \<Longrightarrow>
     getDownloadFileName pf root t sfx i tf = buildPath_spec root t sfx i"
proof (cases "hasOwnExtension pf t")
  case True
  then show ?thesis by (simp add: getDownloadFileName_cases)
next
  case False
  assume "hasOwnExtension pf t \<or> rfind t CHR ''.'' < 0"
  with False have nodot: "rfind t CHR ''.'' < 0" by simp
  have "makePcFileName t tf = makePcFileName t False" by (simp only: makePcFileName_map)
  then show ?thesis
    using False nodot
    by (simp add: getDownloadFileName_cases buildPath_spec_def splitAtLastDot_def)
qed

lemma str_replace_step:
  "str_replace [q] new (x # xs) = (if x = q then new else [x]) @ str_replace [q] new xs"
  by simp

lemma dropPrefix_append: "dropPrefix p (p @ s) = Some s"
  by (induction p) auto

lemma readLiteral_plain:
  "CHR 0x27 \<notin> set s \<Longrightarrow> CHR 0x5C \<notin> set s \<Longrightarrow> readLiteral (s @ CHR 0x27 # r) = Some (s, r)"
  by (induction s) auto

lemma readLiteral_escaped:
  "CHR 0x5C \<notin> set t \<Longrightarrow>
     readLiteral (str_replace [CHR 0x27] [CHR 0x5C, CHR 0x27] t @ CHR 0x27 # r) = Some (t, r)"
  by (induction t) auto

lemma parseQuery_queryStr2:
  "CHR 0x5C \<notin> set t \<Longrightarrow> parseQuery (queryStr2 t) = Some (TitleIs t)"
proof -
  assume t: "CHR 0x5C \<notin> set t"
  let ?body = "str_replace [CHR 0x27] [CHR 0x5C, CHR 0x27] t @ CHR 0x27 # []"
  have "queryStr2 t = (''title='' @ [CHR 0x27]) @ ?body"
    by (simp add: queryStr2_def Let_def)
  then have d: "dropPrefix (''title='' @ [CHR 0x27]) (queryStr2 t) = Some ?body"
    by (simp only: dropPrefix_append)
  have r: "readLiteral ?body = Some (t, [])"
    using t by (rule readLiteral_escaped)
  show ?thesis using d r by (simp add: parseQuery_def)
qed

lemma parseQuery_queryStr1:
  "CHR 0x27 \<notin> set p \<Longrightarrow> CHR 0x5C \<notin> set p \<Longrightarrow> parseQuery (queryStr1 p) = Some (InParents p)"
proof -
  assume p: "CHR 0x27 \<notin> set p" "CHR 0x5C \<notin> set p"
  let ?body = "p @ CHR 0x27 # '' in parents and trashed=false''"
  have a: "dropPrefix (''title='' @ [CHR 0x27]) (queryStr1 p) = None"
    by (simp add: queryStr1_def)
  have "queryStr1 p = [CHR 0x27] @ ?body"
    by (simp add: queryStr1_def)
  then have b: "dropPrefix [CHR 0x27] (queryStr1 p) = Some ?body"
    by (simp only: dropPrefix_append)
  have r: "readLiteral ?body = Some (p, '' in parents and trashed=false'')"
    using p by (rule readLiteral_plain)
  show ?thesis using a b r by (simp add: parseQuery_def)
qed

lemma storeListFile_title:
  "CHR 0x5C \<notin> set t \<Longrightarrow>
     storeListFile store (queryStr2 t) = map entry (filter (\<lambda>e. title (entry e) = t) store)"
proof -
  assume "CHR 0x5C \<notin> set t"
  then have "parseQuery (queryStr2 t) = Some (TitleIs t)" by (rule parseQuery_queryStr2)
  moreover have "answers (TitleIs t) = (\<lambda>e. title (entry e) = t)" by (rule ext) simp
  ultimately show ?thesis by (simp add: storeListFile_def)
qed

lemma storeListFile_parents:
  "CHR 0x27 \<notin> set p \<Longrightarrow> CHR 0x5C \<notin> set p \<Longrightarrow>
     storeListFile store (queryStr1 p) =
       map entry (filter (\<lambda>e. p \<in> set (parents e) \<and> \<not> trashed e) store)"
proof -
  assume "CHR 0x27 \<notin> set p" "CHR 0x5C \<notin> set p"
  then have "parseQuery (queryStr1 p) = Some (InParents p)" by (rule parseQuery_queryStr1)
  moreover have "answers (InParents p) = (\<lambda>e. p \<in> set (parents e) \<and> \<not> trashed e)"
    by (rule ext) simp
  ultimately show ?thesis by (simp add: storeListFile_def)
qed

lemma driveFilesLoop_append:
  "driveFilesLoop R pf drive tf hostDir dn i (pre @ post) h =
     (case driveFilesLoop R pf drive tf hostDir dn i pre h of
        Inl e \<Rightarrow> Inl e
      | Inr h1 \<Rightarrow> driveFilesLoop R pf drive tf hostDir dn (i + int (length pre)) post h1)"
  by (induction pre arbitrary: i h) (auto split: sum.splits simp: add.assoc)

lemma downloads_append: "downloads (xs @ ys) = downloads xs @ downloads ys"
  by (induction xs rule: downloads.induct) auto

lemma downloads_print: "downloads (events (print s h)) = downloads (events h)"
  by (simp add: print_def downloads_append)

lemma processDriveFile_failed:
  assumes "mimeType df \<noteq> ''application/vnd.google-apps.folder''"
      and "mimeType df \<noteq> ''application/vnd.google-apps.form''"
      and "raises drive (events h) df
             (getDownloadFileName pf hostDir dn (mtas_suffix (getMimeTypeAndSuffix df tf)) i tf)
             (mtas_mimeType (getMimeTypeAndSuffix df tf))"
  shows "processDriveFile R pf drive tf hostDir dn df i h =
     Inr (h\<lparr>events := events h @
            [GetContentFile (ident df)
               (getDownloadFileName pf hostDir dn (mtas_suffix (getMimeTypeAndSuffix df tf)) i tf)
               (mtas_mimeType (getMimeTypeAndSuffix df tf)) False,
             Print (''*** FAILED to download '' @ title df @ '' to ''
                     @ getDownloadFileName pf hostDir dn (mtas_suffix (getMimeTypeAndSuffix df tf)) i tf),
             Print (CHR 0x09 # ''Drive id = '' @ ident df)]\<rparr>)"
  using assms by (simp add: processDriveFile_def print_def Let_def)

lemma processDriveFile_no_folder:
  "mimeType df \<noteq> ''application/vnd.google-apps.folder'' \<Longrightarrow>
     \<exists>h'. processDriveFile R pf drive tf hostDir dn df i h = Inr h'"
  by (simp add: processDriveFile_def Let_def)

lemma driveFilesLoop_no_folder:
  "\<forall>d \<in> set dfs. mimeType d \<noteq> ''application/vnd.google-apps.folder'' \<Longrightarrow>
     \<exists>h'. driveFilesLoop R pf drive tf hostDir dn i dfs h = Inr h'"
proof (induction dfs arbitrary: i h)
  case Nil
  then show ?case by simp
next
  case (Cons d dfs)
  then obtain h1 where "processDriveFile R pf drive tf hostDir dn d i h = Inr h1"
    using processDriveFile_no_folder [of d R pf drive tf hostDir dn i h] by auto
  then show ?case using Cons by simp
qed

lemma processDriveFile_regular:
  assumes "mimeType df \<noteq> ''application/vnd.google-apps.folder''"
      and "mimeType df \<noteq> ''application/vnd.google-apps.form''"
  shows "\<exists>h'. processDriveFile R pf drive tf hostDir dn df i h = Inr h'
           \<and> downloads (events h') = downloads (events h) @
               [(ident df, getDownloadFileName pf hostDir dn (mtas_suffix (getMimeTypeAndSuffix df tf)) i tf)]"
  using assms by (simp add: processDriveFile_def print_def Let_def downloads_append)

section \<open>The name sanitizer\<close>

text \<open>
  C7. For every input string, \<open>makePcFileName\<close> replaces each occurrence of each of
  the characters \<^verbatim>\<open>~ # % & * { } / \ : < > ? | "\<close> by an underscore and leaves every
  other character as it is, so its output contains none of those characters.
\<close>

theorem makePcFileName_replaces_illegal:
  "makePcFileName s tf = map (\<lambda>c. if c \<in> set illegalChars then CHR ''_'' else c) s
   \<and> set (makePcFileName s tf) \<inter> set illegalChars = {}"
  by (simp only: makePcFileName_legal) (simp only: makePcFileName_map)

theorem makePcFileName_replaces_illegal_witness:
  "makePcFileName ''a/b:c?d.txt'' False = ''a_b_c_d.txt''"
  using makePcFileName_replaces_illegal [of "''a/b:c?d.txt''" False]
  by (simp add: illegalChars_def)

text \<open>
  C8. \<open>makePcFileName\<close> is idempotent: sanitizing a sanitized name changes nothing.
\<close>

theorem makePcFileName_idempotent:
  "makePcFileName (makePcFileName s tf) tf' = makePcFileName s tf"
  by (rule makePcFileName_fixed) (rule makePcFileName_legal)

section \<open>The name and type resolver\<close>

text \<open>
  C1. For a Drive file that has an export-links mapping, \<open>getMimeTypeAndSuffix\<close> picks
  MIME type and suffix by the fixed order docx, odt, rtf, xlsx, ods, csv, tsv, pptx, odp,
  jpg, png, svg: the first key of that order present in the mapping wins. In particular
  the word-processor key gives suffix .docx whatever else is present, and when no key of
  the order is present the result is the PDF MIME type with suffix .pdf.
\<close>

theorem getMimeTypeAndSuffix_priority:
  assumes "exportLinks f = Some links"
  shows "getMimeTypeAndSuffix f tf = firstMatch exportPriority (dom links)
    \<and> map snd exportPriority =
        [''.docx'', ''.odt'', ''.rtf'', ''.xlsx'', ''.ods'', ''.csv'', ''.tsv'', ''.pptx'', ''.odp'',
         ''.jpg'', ''.png'', ''.svg'']
    \<and> (\<forall>pre k sfx post.
          exportPriority = pre @ (k, sfx) # post \<and> k \<in> dom links \<and> dom links \<inter> fst ` set pre = {}
          \<longrightarrow> getMimeTypeAndSuffix f tf = \<lparr>mtas_mimeType = k, mtas_suffix = sfx\<rparr>)
    \<and> (''application/vnd.openxmlformats-officedocument.wordprocessingml.document'' \<in> dom links
          \<longrightarrow> mtas_suffix (getMimeTypeAndSuffix f tf) = ''.docx'')
    \<and> (dom links \<inter> fst ` set exportPriority = {}
          \<longrightarrow> getMimeTypeAndSuffix f tf =
                \<lparr>mtas_mimeType = ''application/pdf'', mtas_suffix = ''.pdf''\<rparr>)"
proof -
  have chain: "getMimeTypeAndSuffix f tf = firstMatch exportPriority (dom links)"
    using assms by (rule firstMatch_chain)
  have first: "\<forall>pre k sfx post.
      exportPriority = pre @ (k, sfx) # post \<and> k \<in> dom links \<and> dom links \<inter> fst ` set pre = {}
      \<longrightarrow> getMimeTypeAndSuffix f tf = \<lparr>mtas_mimeType = k, mtas_suffix = sfx\<rparr>"
    using chain firstMatch_split by metis
  have word: "''application/vnd.openxmlformats-officedocument.wordprocessingml.document'' \<in> dom links
      \<longrightarrow> mtas_suffix (getMimeTypeAndSuffix f tf) = ''.docx''"
    using assms word_processor_first by blast
  have pdf: "dom links \<inter> fst ` set exportPriority = {}
      \<longrightarrow> getMimeTypeAndSuffix f tf = \<lparr>mtas_mimeType = ''application/pdf'', mtas_suffix = ''.pdf''\<rparr>"
    using chain firstMatch_none by metis
  from chain exportPriority_suffixes first word pdf show ?thesis by blast
qed

theorem getMimeTypeAndSuffix_priority_witness:
  "exportLinks \<lparr>title = ''Budget'', ident = ''id1'', mimeType = ''application/vnd.google-apps.spreadsheet'',
       exportLinks = Some [''image/png'' \<mapsto> ''u1'', ''text/csv'' \<mapsto> ''u2'', ''application/pdf'' \<mapsto> ''u3'']\<rparr>
     = Some [''image/png'' \<mapsto> ''u1'', ''text/csv'' \<mapsto> ''u2'', ''application/pdf'' \<mapsto> ''u3'']
   \<and> getMimeTypeAndSuffix
        \<lparr>title = ''Budget'', ident = ''id1'', mimeType = ''application/vnd.google-apps.spreadsheet'',
         exportLinks = Some [''image/png'' \<mapsto> ''u1'', ''text/csv'' \<mapsto> ''u2'', ''application/pdf'' \<mapsto> ''u3'']\<rparr>
        False
     = \<lparr>mtas_mimeType = ''text/csv'', mtas_suffix = ''.csv''\<rparr>"
proof -
  let ?links = "[''image/png'' \<mapsto> ''u1'', ''text/csv'' \<mapsto> ''u2'', ''application/pdf'' \<mapsto> ''u3'']"
  let ?f = "\<lparr>title = ''Budget'', ident = ''id1'', mimeType = ''application/vnd.google-apps.spreadsheet'',
         exportLinks = Some ?links\<rparr>"
  have h: "exportLinks ?f = Some ?links" by simp
  have "getMimeTypeAndSuffix ?f False = firstMatch exportPriority (dom ?links)"
    using getMimeTypeAndSuffix_priority [OF h, of False] by blast
  then show ?thesis by (simp add: exportPriority_def)
qed

text \<open>
  C6. For a Drive file whose metadata has no export-links mapping,
  \<open>getMimeTypeAndSuffix\<close> returns the file's own MIME type and the empty suffix.
\<close>

theorem getMimeTypeAndSuffix_native:
  "exportLinks f = None \<Longrightarrow>
     getMimeTypeAndSuffix f tf = \<lparr>mtas_mimeType = mimeType f, mtas_suffix = []\<rparr>"
  by (simp add: getMimeTypeAndSuffix_def)

theorem getMimeTypeAndSuffix_native_witness:
  "exportLinks \<lparr>title = ''photo.jpg'', ident = ''id2'', mimeType = ''image/jpeg'', exportLinks = None\<rparr> = None
   \<and> getMimeTypeAndSuffix
        \<lparr>title = ''photo.jpg'', ident = ''id2'', mimeType = ''image/jpeg'', exportLinks = None\<rparr> True
     = \<lparr>mtas_mimeType = ''image/jpeg'', mtas_suffix = []\<rparr>"
  using getMimeTypeAndSuffix_native
    [of "\<lparr>title = ''photo.jpg'', ident = ''id2'', mimeType = ''image/jpeg'', exportLinks = None\<rparr>" True]
  by simp

section \<open>The local path builder\<close>

text \<open>
  C3. Every path built by \<open>getDownloadFileName\<close> should be free of the reserved
  characters in the name it gives the file. Only the base name goes through
  \<open>makePcFileName\<close>; the title's own extension is appended as it stands. For the title
  \<^verbatim>\<open>Q1 vs. Q2 <draft>\<close> the text from the last dot on counts as the extension, and the
  file name keeps its \<^verbatim>\<open><\<close> and \<^verbatim>\<open>>\<close>; for the title \<^verbatim>\<open>Meeting 10.30: agenda\<close>
  it keeps its colon. The sanitizer applied to the whole title, as the walker does for a
  folder, removes them.
\<close>

theorem getDownloadFileName_raw_extension:
  "getDownloadFileName Nt ''C:/out'' ''Q1 vs. Q2 <draft>'' ''.docx'' 0 False = ''C:/out/Q1 vs. Q2 <draft>''
   \<and> getDownloadFileName Posix ''out'' ''Q1 vs. Q2 <draft>'' ''.docx'' 0 False = ''out/Q1 vs. Q2 <draft>''
   \<and> drop (length ''C:/out'' + 1)
         (getDownloadFileName Nt ''C:/out'' ''Q1 vs. Q2 <draft>'' ''.docx'' 0 False) = ''Q1 vs. Q2 <draft>''
   \<and> CHR ''<'' \<in> set illegalChars \<and> CHR ''>'' \<in> set illegalChars
   \<and> makePcFileName ''Q1 vs. Q2 <draft>'' False = ''Q1 vs. Q2 _draft_''
   \<and> getDownloadFileName Nt ''C:/out'' ''Meeting 10.30: agenda'' [] 1 False
        = ''C:/out/Meeting 10_1.30: agenda''
   \<and> CHR '':'' \<in> set illegalChars"
proof -
  have a: "getDownloadFileName Nt ''C:/out'' ''Q1 vs. Q2 <draft>'' ''.docx'' 0 False
      = ''C:/out/Q1 vs. Q2 <draft>''"
    by code_simp
  have b: "getDownloadFileName Posix ''out'' ''Q1 vs. Q2 <draft>'' ''.docx'' 0 False
      = ''out/Q1 vs. Q2 <draft>''"
    by code_simp
  have c: "drop (length ''C:/out'' + 1)
         (getDownloadFileName Nt ''C:/out'' ''Q1 vs. Q2 <draft>'' ''.docx'' 0 False) = ''Q1 vs. Q2 <draft>''"
    by (simp only: a) simp
  have d: "CHR ''<'' \<in> set illegalChars" "CHR ''>'' \<in> set illegalChars" "CHR '':'' \<in> set illegalChars"
    by (simp_all add: illegalChars_def)
  have e: "makePcFileName ''Q1 vs. Q2 <draft>'' False = ''Q1 vs. Q2 _draft_''"
    by (simp add: makePcFileName_map illegalChars_def)
  have f: "getDownloadFileName Nt ''C:/out'' ''Meeting 10.30: agenda'' [] 1 False
      = ''C:/out/Meeting 10_1.30: agenda''"
    by code_simp
  from a b c d e f show ?thesis by blast
qed

text \<open>
  C4, as stated: the title is split at its last dot. It is not always: for the title
  \<^verbatim>\<open>.notes\<close> the last dot is the first character, \<^verbatim>\<open>splitext\<close> finds no
  extension there, and the suffix is appended to the whole title.
\<close>

theorem getDownloadFileName_last_dot_counterexample:
  "getDownloadFileName Posix ''out'' ''.notes'' ''.docx'' 0 False = ''out/.notes.docx''
   \<and> buildPath_spec ''out'' ''.notes'' ''.docx'' 0 = ''out/.notes''
   \<and> getDownloadFileName Posix ''out'' ''.notes'' ''.docx'' 0 False
       \<noteq> buildPath_spec ''out'' ''.notes'' ''.docx'' 0"
proof -
  have a: "getDownloadFileName Posix ''out'' ''.notes'' ''.docx'' 0 False = ''out/.notes.docx''"
    by code_simp
  have b: "buildPath_spec ''out'' ''.notes'' ''.docx'' 0 = ''out/.notes''"
    by code_simp
  from a b show ?thesis by simp
qed

text \<open>
  C4, amended. \<open>getDownloadFileName\<close> splits the title as \<^verbatim>\<open>os.path.splitext\<close>
  does: at its last dot when that dot comes after the last path separator of the title and
  some character other than a dot stands between that separator (or the start) and the
  dot; the title's own extension is then used as it is and the suffix is ignored. In every
  other case the whole title is the base name and the suffix is appended. A positive
  index \<open>i\<close> puts an underscore and the decimal \<open>i\<close> between the sanitized base name and
  the extension. The function agrees with the split at the last dot whenever the title has
  an extension in that sense or no dot at all; the title \<^verbatim>\<open>Report\<close> with suffix
  \<^verbatim>\<open>.pdf\<close> gives \<^verbatim>\<open>Report.pdf\<close> for index 0 and \<^verbatim>\<open>Report_1.pdf\<close> for index 1.
\<close>

theorem getDownloadFileName_split:
  "getDownloadFileName pf root t sfx i tf =
     (if hasOwnExtension pf t
      then root @ ''/'' @ makePcFileName (take (nat (rfind t CHR ''.'')) t) tf @ indexPart i
             @ drop (nat (rfind t CHR ''.'')) t
      else root @ ''/'' @ makePcFileName t tf @ indexPart i @ sfx)
   \<and> (hasOwnExtension pf t \<or> rfind t CHR ''.'' < 0
        \<longrightarrow> getDownloadFileName pf root t sfx i tf = buildPath_spec root t sfx i)
   \<and> getDownloadFileName pf root ''Report'' ''.pdf'' 0 tf = root @ ''/Report.pdf''
   \<and> getDownloadFileName pf root ''Report'' ''.pdf'' 1 tf = root @ ''/Report_1.pdf''"
proof -
  have eq: "getDownloadFileName pf root t sfx i tf =
     (if hasOwnExtension pf t
      then root @ ''/'' @ makePcFileName (take (nat (rfind t CHR ''.'')) t) tf @ indexPart i
             @ drop (nat (rfind t CHR ''.'')) t
      else root @ ''/'' @ makePcFileName t tf @ indexPart i @ sfx)"
    using own_extension_nonempty [of pf t]
    by (simp add: getDownloadFileName_parts splitext_char)
  have agree: "hasOwnExtension pf t \<or> rfind t CHR ''.'' < 0
        \<longrightarrow> getDownloadFileName pf root t sfx i tf = buildPath_spec root t sfx i"
    using spec_agrees by blast
  from eq agree report_paths [of pf root tf] show ?thesis by (simp only:)
qed

theorem getDownloadFileName_split_witness:
  "hasOwnExtension Posix ''Budget.txt''
   \<and> getDownloadFileName Posix ''out'' ''Budget.txt'' ''.xlsx'' 12 False = ''out/Budget_12.txt''
   \<and> buildPath_spec ''out'' ''Budget.txt'' ''.xlsx'' 12 = ''out/Budget_12.txt''"
proof -
  have h: "hasOwnExtension Posix ''Budget.txt''" by code_simp
  have b: "buildPath_spec ''out'' ''Budget.txt'' ''.xlsx'' 12 = ''out/Budget_12.txt''" by code_simp
  have "getDownloadFileName Posix ''out'' ''Budget.txt'' ''.xlsx'' 12 False
      = buildPath_spec ''out'' ''Budget.txt'' ''.xlsx'' 12"
    using getDownloadFileName_split [of Posix "''out''" "''Budget.txt''" "''.xlsx''" 12 False] h
    by blast
  with h b show ?thesis by simp
qed

section \<open>The tree walker\<close>

text \<open>
  C2. During one traversal of a container every enumerated entry should be visited
  exactly once, and a title shared by several entries of the listing should have its
  group processed once. The walker does otherwise at a root folder that holds two regular
  files titled Report: the listing has the two entries, the group of the title is
  processed once for each of them, and each file is fetched twice.
\<close>

theorem duplicate_titles_processed_per_entry:
  "ListFile (storeSession twoReports neverFails) (queryStr1 ''root'') =
     [plainFile ''Report'' ''a'', plainFile ''Report'' ''b'']
   \<and> downloadAllFilesInFolder 1 Posix (storeSession twoReports neverFails) False ''out'' ''root''
        (freshHost ''out'') =
      Inr \<lparr>dirs = [''out''],
           events =
             [GetContentFile ''a'' ''out/Report'' ''text/plain'' True,
              GetContentFile ''b'' ''out/Report_1'' ''text/plain'' True,
              GetContentFile ''a'' ''out/Report'' ''text/plain'' True,
              GetContentFile ''b'' ''out/Report_1'' ''text/plain'' True]\<rparr>"
proof -
  have listing: "ListFile (storeSession twoReports neverFails) (queryStr1 ''root'') =
      [plainFile ''Report'' ''a'', plainFile ''Report'' ''b'']"
    by (simp add: storeSession_def storeListFile_parents twoReports_def)
  have walk: "downloadAllFilesInFolder 1 Posix (storeSession twoReports neverFails) False ''out'' ''root''
        (freshHost ''out'') =
      Inr \<lparr>dirs = [''out''],
           events =
             [GetContentFile ''a'' ''out/Report'' ''text/plain'' True,
              GetContentFile ''b'' ''out/Report_1'' ''text/plain'' True,
              GetContentFile ''a'' ''out/Report'' ''text/plain'' True,
              GetContentFile ''b'' ''out/Report_1'' ''text/plain'' True]\<rparr>"
    by code_simp
  from listing walk show ?thesis by (simp only:)
qed

text \<open>
  C5. When the content download of a regular file raises, whatever the cause, the walker
  records the failed call, prints a notice with the entry's title and a notice with its
  remote id, and goes on with the next entry of the group with the counter advanced; a
  group without folders is processed to its end whatever the downloads do.
\<close>

theorem download_failure_reported_and_skipped:
  assumes "mimeType df \<noteq> ''application/vnd.google-apps.folder''"
      and "mimeType df \<noteq> ''application/vnd.google-apps.form''"
      and "raises drive (events h) df
             (getDownloadFileName pf hostDir dn (mtas_suffix (getMimeTypeAndSuffix df tf)) i tf)
             (mtas_mimeType (getMimeTypeAndSuffix df tf))"
  shows "driveFilesLoop R pf drive tf hostDir dn i (df # rest) h =
           driveFilesLoop R pf drive tf hostDir dn (i + 1) rest
             (h\<lparr>events := events h @
                [GetContentFile (ident df)
                   (getDownloadFileName pf hostDir dn (mtas_suffix (getMimeTypeAndSuffix df tf)) i tf)
                   (mtas_mimeType (getMimeTypeAndSuffix df tf)) False,
                 Print (''*** FAILED to download '' @ title df @ '' to ''
                         @ getDownloadFileName pf hostDir dn (mtas_suffix (getMimeTypeAndSuffix df tf)) i tf),
                 Print (CHR 0x09 # ''Drive id = '' @ ident df)]\<rparr>)
         \<and> ((\<forall>d \<in> set rest. mimeType d \<noteq> ''application/vnd.google-apps.folder'')
              \<longrightarrow> (\<exists>h'. driveFilesLoop R pf drive tf hostDir dn i (df # rest) h = Inr h'))"
proof -
  have step: "driveFilesLoop R pf drive tf hostDir dn i (df # rest) h =
           driveFilesLoop R pf drive tf hostDir dn (i + 1) rest
             (h\<lparr>events := events h @
                [GetContentFile (ident df)
                   (getDownloadFileName pf hostDir dn (mtas_suffix (getMimeTypeAndSuffix df tf)) i tf)
                   (mtas_mimeType (getMimeTypeAndSuffix df tf)) False,
                 Print (''*** FAILED to download '' @ title df @ '' to ''
                         @ getDownloadFileName pf hostDir dn (mtas_suffix (getMimeTypeAndSuffix df tf)) i tf),
                 Print (CHR 0x09 # ''Drive id = '' @ ident df)]\<rparr>)"
    by (simp add: processDriveFile_failed [OF assms])
  have total: "(\<forall>d \<in> set rest. mimeType d \<noteq> ''application/vnd.google-apps.folder'')
      \<longrightarrow> (\<exists>h'. driveFilesLoop R pf drive tf hostDir dn i (df # rest) h = Inr h')"
  proof
    assume "\<forall>d \<in> set rest. mimeType d \<noteq> ''application/vnd.google-apps.folder''"
    with assms(1) have "\<forall>d \<in> set (df # rest). mimeType d \<noteq> ''application/vnd.google-apps.folder''"
      by simp
    then show "\<exists>h'. driveFilesLoop R pf drive tf hostDir dn i (df # rest) h = Inr h'"
      by (rule driveFilesLoop_no_folder)
  qed
  from step total show ?thesis by (simp only:)
qed

theorem download_failure_reported_and_skipped_witness:
  "mimeType (plainFile ''first'' ''a'') \<noteq> ''application/vnd.google-apps.folder''
   \<and> mimeType (plainFile ''first'' ''a'') \<noteq> ''application/vnd.google-apps.form''
   \<and> raises (storeSession twoFiles (failsFor ''a'')) (events (freshHost ''out''))
        (plainFile ''first'' ''a'') ''out/first'' ''text/plain''
   \<and> driveFilesLoop (downloadAllFilesInFolder 0 Posix (storeSession twoFiles (failsFor ''a'')) False)
        Posix (storeSession twoFiles (failsFor ''a'')) False ''out'' ''first'' 0
        [plainFile ''first'' ''a''] (freshHost ''out'') =
      Inr \<lparr>dirs = [''out''],
           events =
             [GetContentFile ''a'' ''out/first'' ''text/plain'' False,
              Print ''*** FAILED to download first to out/first'',
              Print (CHR 0x09 # ''Drive id = a'')]\<rparr>
   \<and> downloadAllFilesInFolder 1 Posix (storeSession twoFiles (failsFor ''a'')) False ''out'' ''root''
        (freshHost ''out'') =
      Inr \<lparr>dirs = [''out''],
           events =
             [GetContentFile ''a'' ''out/first'' ''text/plain'' False,
              Print ''*** FAILED to download first to out/first'',
              Print (CHR 0x09 # ''Drive id = a''),
              GetContentFile ''b'' ''out/second'' ''text/plain'' True]\<rparr>"
proof -
  let ?drive = "storeSession twoFiles (failsFor ''a'')"
  let ?df = "plainFile ''first'' ''a''"
  have m1: "mimeType ?df \<noteq> ''application/vnd.google-apps.folder''"
    by (simp add: plainFile_def)
  have m2: "mimeType ?df \<noteq> ''application/vnd.google-apps.form''"
    by (simp add: plainFile_def)
  have sfx: "getMimeTypeAndSuffix ?df False = \<lparr>mtas_mimeType = ''text/plain'', mtas_suffix = []\<rparr>"
    by (simp add: getMimeTypeAndSuffix_def plainFile_def)
  have name: "getDownloadFileName Posix ''out'' ''first'' [] 0 False = ''out/first''"
    by code_simp
  have ti: "title ?df = ''first''" "ident ?df = ''a''"
    by (simp_all add: plainFile_def)
  have r: "raises ?drive (events (freshHost ''out'')) ?df
             (getDownloadFileName Posix ''out'' ''first''
                (mtas_suffix (getMimeTypeAndSuffix ?df False)) 0 False)
             (mtas_mimeType (getMimeTypeAndSuffix ?df False))"
    by (simp add: storeSession_def failsFor_def plainFile_def)
  have r': "raises ?drive (events (freshHost ''out'')) ?df ''out/first'' ''text/plain''"
    by (simp add: storeSession_def failsFor_def plainFile_def)
  have loop: "driveFilesLoop (downloadAllFilesInFolder 0 Posix ?drive False)
        Posix ?drive False ''out'' ''first'' 0 [?df] (freshHost ''out'') =
      Inr \<lparr>dirs = [''out''],
           events =
             [GetContentFile ''a'' ''out/first'' ''text/plain'' False,
              Print ''*** FAILED to download first to out/first'',
              Print (CHR 0x09 # ''Drive id = a'')]\<rparr>"
    using download_failure_reported_and_skipped [OF m1 m2 r,
        of "downloadAllFilesInFolder 0 Posix ?drive False" "[]"]
    by (simp add: sfx name ti freshHost_def)
  have walk: "downloadAllFilesInFolder 1 Posix ?drive False ''out'' ''root'' (freshHost ''out'') =
      Inr \<lparr>dirs = [''out''],
           events =
             [GetContentFile ''a'' ''out/first'' ''text/plain'' False,
              Print ''*** FAILED to download first to out/first'',
              Print (CHR 0x09 # ''Drive id = a''),
              GetContentFile ''b'' ''out/second'' ''text/plain'' True]\<rparr>"
    by code_simp
  from m1 m2 r' loop walk show ?thesis by blast
qed

text \<open>
  C9. The query the walker issues for a title is the string \<^verbatim>\<open>title='...'\<close> around
  the title with every apostrophe escaped, and nothing else: no parent folder, no
  trashed mark. For the title \<^verbatim>\<open>O'Brien\<close> the query reads back as that title, and
  a walk of the root folder fetches every file titled Notes: the one in the root, the
  one in another folder and the trashed one. A
  backslash in the title is not escaped: for the title made of the letter a and a
  backslash, the backslash escapes the closing apostrophe, the literal of the query never
  ends, the service refuses the query, and the walk ends in the exception of the listing
  instead of processing the entries of that title.
\<close>

theorem title_query_backslash_unescaped:
  "queryStr2 (''O'' @ [CHR 0x27] @ ''Brien'')
     = ''title='' @ [CHR 0x27] @ ''O'' @ [CHR 0x5C, CHR 0x27] @ ''Brien'' @ [CHR 0x27]
   \<and> parseQuery (queryStr2 (''O'' @ [CHR 0x27] @ ''Brien'')) = Some (TitleIs (''O'' @ [CHR 0x27] @ ''Brien''))
   \<and> downloadAllFilesInFolder 1 Posix (storeSession scatteredNotes neverFails) False ''out'' ''root''
        (freshHost ''out'') =
      Inr \<lparr>dirs = [''out''],
           events =
             [GetContentFile ''a'' ''out/Notes'' ''text/plain'' True,
              GetContentFile ''b'' ''out/Notes_1'' ''text/plain'' True,
              GetContentFile ''c'' ''out/Notes_2'' ''text/plain'' True]\<rparr>
   \<and> queryStr2 [CHR ''a'', CHR 0x5C] = ''title='' @ [CHR 0x27, CHR ''a'', CHR 0x5C, CHR 0x27]
   \<and> readLiteral [CHR ''a'', CHR 0x5C, CHR 0x27] = None
   \<and> parseQuery (queryStr2 [CHR ''a'', CHR 0x5C]) = None
   \<and> downloadAllFilesInFolder 1 Posix (storeSession backslashTitle neverFails) False ''out'' ''root''
        (freshHost ''out'')
      = Inl (ApiRequestError (''title='' @ [CHR 0x27, CHR ''a'', CHR 0x5C, CHR 0x27]))"
proof -
  have a: "queryStr2 (''O'' @ [CHR 0x27] @ ''Brien'')
     = ''title='' @ [CHR 0x27] @ ''O'' @ [CHR 0x5C, CHR 0x27] @ ''Brien'' @ [CHR 0x27]"
    by code_simp
  have b: "parseQuery (queryStr2 (''O'' @ [CHR 0x27] @ ''Brien''))
      = Some (TitleIs (''O'' @ [CHR 0x27] @ ''Brien''))"
    by code_simp
  have n: "downloadAllFilesInFolder 1 Posix (storeSession scatteredNotes neverFails) False ''out'' ''root''
        (freshHost ''out'') =
      Inr \<lparr>dirs = [''out''],
           events =
             [GetContentFile ''a'' ''out/Notes'' ''text/plain'' True,
              GetContentFile ''b'' ''out/Notes_1'' ''text/plain'' True,
              GetContentFile ''c'' ''out/Notes_2'' ''text/plain'' True]\<rparr>"
    by code_simp
  have c: "queryStr2 [CHR ''a'', CHR 0x5C] = ''title='' @ [CHR 0x27, CHR ''a'', CHR 0x5C, CHR 0x27]"
    by code_simp
  have d: "readLiteral [CHR ''a'', CHR 0x5C, CHR 0x27] = None"
    by code_simp
  have e: "parseQuery (queryStr2 [CHR ''a'', CHR 0x5C]) = None"
    by code_simp
  have f: "downloadAllFilesInFolder 1 Posix (storeSession backslashTitle neverFails) False ''out'' ''root''
        (freshHost ''out'')
      = Inl (ApiRequestError (''title='' @ [CHR 0x27, CHR ''a'', CHR 0x5C, CHR 0x27]))"
    by code_simp
  from a b n c d e f show ?thesis by blast
qed

text \<open>
  C10. Within one title group the counter starts at zero and advances after every entry,
  whatever its kind: the entry that stands after \<open>pre\<close> in the group is processed with
  the index \<open>length pre\<close>, and when it is a regular file that index goes into its local
  name. A regular file that follows a folder of the same title is built with index 1.
\<close>

theorem counter_counts_every_entry:
  "driveFilesLoop R pf drive tf hostDir dn 0 (pre @ df # post) h =
     (case driveFilesLoop R pf drive tf hostDir dn 0 pre h of
        Inl e \<Rightarrow> Inl e
      | Inr h1 \<Rightarrow>
          (case processDriveFile R pf drive tf hostDir dn df (int (length pre)) h1 of
             Inl e \<Rightarrow> Inl e
           | Inr h2 \<Rightarrow> driveFilesLoop R pf drive tf hostDir dn (int (length pre) + 1) post h2))
   \<and> (mimeType df \<noteq> ''application/vnd.google-apps.folder''
        \<and> mimeType df \<noteq> ''application/vnd.google-apps.form''
      \<longrightarrow> (\<forall>h1. \<exists>h2. processDriveFile R pf drive tf hostDir dn df (int (length pre)) h1 = Inr h2
              \<and> downloads (events h2) = downloads (events h1) @
                  [(ident df,
                    getDownloadFileName pf hostDir dn (mtas_suffix (getMimeTypeAndSuffix df tf))
                      (int (length pre)) tf)]))"
proof -
  have pos: "driveFilesLoop R pf drive tf hostDir dn 0 (pre @ df # post) h =
     (case driveFilesLoop R pf drive tf hostDir dn 0 pre h of
        Inl e \<Rightarrow> Inl e
      | Inr h1 \<Rightarrow>
          (case processDriveFile R pf drive tf hostDir dn df (int (length pre)) h1 of
             Inl e \<Rightarrow> Inl e
           | Inr h2 \<Rightarrow> driveFilesLoop R pf drive tf hostDir dn (int (length pre) + 1) post h2))"
    by (simp add: driveFilesLoop_append split: sum.splits)
  have reg: "mimeType df \<noteq> ''application/vnd.google-apps.folder''
        \<and> mimeType df \<noteq> ''application/vnd.google-apps.form''
      \<longrightarrow> (\<forall>h1. \<exists>h2. processDriveFile R pf drive tf hostDir dn df (int (length pre)) h1 = Inr h2
              \<and> downloads (events h2) = downloads (events h1) @
                  [(ident df,
                    getDownloadFileName pf hostDir dn (mtas_suffix (getMimeTypeAndSuffix df tf))
                      (int (length pre)) tf)])"
    using processDriveFile_regular by blast
  from pos reg show ?thesis by (rule conjI)
qed

theorem counter_counts_every_entry_witness:
  "mimeType (plainFile ''Notes'' ''a'') \<noteq> ''application/vnd.google-apps.folder''
   \<and> mimeType (plainFile ''Notes'' ''a'') \<noteq> ''application/vnd.google-apps.form''
   \<and> ListFile (storeSession folderThenFile neverFails) (queryStr2 ''Notes'') =
       [folderFile ''Notes'' ''n'', plainFile ''Notes'' ''a'']
   \<and> driveFilesLoop (downloadAllFilesInFolder 1 Posix (storeSession folderThenFile neverFails) False)
        Posix (storeSession folderThenFile neverFails) False ''out'' ''Notes'' 0
        [folderFile ''Notes'' ''n'', plainFile ''Notes'' ''a''] (freshHost ''out'') =
      Inr \<lparr>dirs = [''out'', ''out/Notes''],
           events = [MakeDirs ''out/Notes'', GetContentFile ''a'' ''out/Notes_1'' ''text/plain'' True]\<rparr>
   \<and> downloadAllFilesInFolder 2 Posix (storeSession folderThenFile neverFails) False ''out'' ''root''
        (freshHost ''out'') =
      Inr \<lparr>dirs = [''out'', ''out/Notes''],
           events = [MakeDirs ''out/Notes'', GetContentFile ''a'' ''out/Notes_1'' ''text/plain'' True]\<rparr>"
proof -
  let ?drive = "storeSession folderThenFile neverFails"
  let ?R = "downloadAllFilesInFolder 1 Posix ?drive False"
  let ?h1 = "\<lparr>dirs = [''out'', ''out/Notes''], events = [MakeDirs ''out/Notes'']\<rparr>"
  let ?h2 = "\<lparr>dirs = [''out'', ''out/Notes''],
           events = [MakeDirs ''out/Notes'', GetContentFile ''a'' ''out/Notes_1'' ''text/plain'' True]\<rparr>"
  have m1: "mimeType (plainFile ''Notes'' ''a'') \<noteq> ''application/vnd.google-apps.folder''"
    by (simp add: plainFile_def)
  have m2: "mimeType (plainFile ''Notes'' ''a'') \<noteq> ''application/vnd.google-apps.form''"
    by (simp add: plainFile_def)
  have group: "ListFile ?drive (queryStr2 ''Notes'') = [folderFile ''Notes'' ''n'', plainFile ''Notes'' ''a'']"
    by (simp add: storeSession_def storeListFile_title folderThenFile_def plainFile_def folderFile_def)
  have pre: "driveFilesLoop ?R Posix ?drive False ''out'' ''Notes'' 0 [folderFile ''Notes'' ''n'']
      (freshHost ''out'') = Inr ?h1"
    by code_simp
  have step: "processDriveFile ?R Posix ?drive False ''out'' ''Notes'' (plainFile ''Notes'' ''a'') 1 ?h1
      = Inr ?h2"
    by code_simp
  have loop: "driveFilesLoop ?R Posix ?drive False ''out'' ''Notes'' 0
        [folderFile ''Notes'' ''n'', plainFile ''Notes'' ''a''] (freshHost ''out'') = Inr ?h2"
  proof -
    have len: "int (length [folderFile ''Notes'' ''n'']) = 1" by simp
    have "driveFilesLoop ?R Posix ?drive False ''out'' ''Notes'' 0
            ([folderFile ''Notes'' ''n''] @ plainFile ''Notes'' ''a'' # []) (freshHost ''out'') =
          (case driveFilesLoop ?R Posix ?drive False ''out'' ''Notes'' 0 [folderFile ''Notes'' ''n'']
                  (freshHost ''out'') of
             Inl e \<Rightarrow> Inl e
           | Inr h1 \<Rightarrow>
               (case processDriveFile ?R Posix ?drive False ''out'' ''Notes'' (plainFile ''Notes'' ''a'')
                       (int (length [folderFile ''Notes'' ''n''])) h1 of
                  Inl e \<Rightarrow> Inl e
                | Inr h2 \<Rightarrow>
                    driveFilesLoop ?R Posix ?drive False ''out'' ''Notes''
                      (int (length [folderFile ''Notes'' ''n'']) + 1) [] h2))"
      using counter_counts_every_entry [of ?R Posix ?drive False "''out''" "''Notes''"
        "[folderFile ''Notes'' ''n'']" "plainFile ''Notes'' ''a''" "[]" "freshHost ''out''"]
      by (rule conjunct1)
    then show ?thesis
      by (simp only: append_Cons append_Nil len pre step sum.case driveFilesLoop.simps(1))
  qed
  have walk: "downloadAllFilesInFolder 2 Posix ?drive False ''out'' ''root'' (freshHost ''out'') = Inr ?h2"
    by code_simp
  from m1 m2 group loop walk show ?thesis by blast
qed

end
